theory Spec2Isabelle
  imports Complex_Main "HOL-Library.Word"
begin

unbundle bit_operations_syntax

section \<open>Data model\<close>

text \<open>
  The module is compiled with Emscripten for a 32-bit WebAssembly target: \<open>size_t\<close> and
  pointers are 32-bit unsigned, \<open>int\<close> is 32-bit signed, \<open>uint8_t\<close> and \<open>uint16_t\<close> are
  \<open>8 word\<close> and \<open>16 word\<close>.

  A \<open>float\<close> value is modelled by the rational number it denotes. Every value the decoder
  computes is \<open>k / 2^15\<close> for an integer \<open>k\<close> with \<open>\<bar>k\<bar> < 2^16\<close>: the conversion of such a
  \<open>k\<close> to binary32 is exact (24-bit significand), and so is the division by the power of
  two \<open>32768.0f\<close> (the exponent stays far from the subnormal range). No rounding takes
  place, which \<open>float32_exact\<close> below makes precise.
\<close>

type_synonym float32 = rat

definition float32_exact :: "float32 \<Rightarrow> bool" where
  "float32_exact x \<longleftrightarrow> (\<exists>k::int. \<bar>k\<bar> < 2 ^ 24 \<and> x = of_int k / 2 ^ 15)"

text \<open>
  The two buffers of one decode call: \<open>src\<close> points to bytes, \<open>dst\<close> to floats. They come
  from two separate allocations, so a write through \<open>dst\<close> never lands in \<open>src\<close>.
\<close>

record buffers =
  src_buf :: "8 word list"
  dst_buf :: "float32 list"

text \<open>
  The source checks nothing. What is undefined behaviour in C++ is a fault of the model:
  an access beyond a buffer, and overflow of the \<open>int\<close> loop counter or index.
\<close>

datatype fault = OutOfBounds | SignedOverflow

definition INT_MAX :: nat where
  "INT_MAX = 2147483647"

subsection \<open>Host byte order\<close>

datatype endianness = LittleEndian | BigEndian

text \<open>How the host lays out a \<open>uint16_t\<close> in memory, and how it reads one back.\<close>

fun store_u16 :: "endianness \<Rightarrow> 16 word \<Rightarrow> 8 word list" where
  "store_u16 LittleEndian w = [ucast w, ucast (drop_bit 8 w)]"
| "store_u16 BigEndian w = [ucast (drop_bit 8 w), ucast w]"

fun load_u16 :: "endianness \<Rightarrow> 8 word \<Rightarrow> 8 word \<Rightarrow> 16 word" where
  "load_u16 LittleEndian b0 b1 = push_bit 8 (ucast b1) OR ucast b0"
| "load_u16 BigEndian b0 b1 = push_bit 8 (ucast b0) OR ucast b1"

section \<open>pcm16sledecoder.cc\<close>

text \<open>
  \<^verbatim>\<open>dst[i] = src16[i] / 32768.0f;\<close> with \<^verbatim>\<open>const uint16_t* src16\<close>: the host loads the
  two bytes at offsets \<open>2*i\<close> and \<open>2*i+1\<close> as an unsigned 16-bit value, which is promoted
  to \<open>int\<close>, converted to \<open>float\<close> and divided.
\<close>

definition fast_sample :: "endianness \<Rightarrow> 8 word list \<Rightarrow> nat \<Rightarrow> float32" where
  "fast_sample h src i =
     (let src16_i = load_u16 h (src ! (2 * i)) (src ! (2 * i + 1))
      in of_int (uint src16_i) / 32768)"

text \<open>
  \<^verbatim>\<open>int16_t sample = (src[2 * i] << 8) | src[2 * i + 1]; dst[i] = sample / 32768.0f;\<close>
  Both bytes are promoted to \<open>int\<close>; the \<open>int\<close> result is narrowed to \<open>int16_t\<close> (modulo
  \<open>2^16\<close>), read as two's complement, converted to \<open>float\<close> and divided.
\<close>

definition fallback_sample :: "8 word list \<Rightarrow> nat \<Rightarrow> float32" where
  "fallback_sample src i =
     (let sample = (word_of_int (push_bit 8 (uint (src ! (2 * i))) OR uint (src ! (2 * i + 1))) :: 16 word)
      in of_int (sint sample) / 32768)"

text \<open>
  \<^verbatim>\<open>for (int i = 0; i < numSamples; i++)\<close>: the counter starts at 0 and only grows, so it
  is a \<open>nat\<close> here; in \<open>i < numSamples\<close> it is converted to \<open>size_t\<close>, which keeps its value.
  Incrementing it at \<open>INT_MAX\<close> overflows.
\<close>

function fast_loop :: "endianness \<Rightarrow> 32 word \<Rightarrow> nat \<Rightarrow> buffers \<Rightarrow> fault + buffers" where
  "fast_loop h numSamples i m =
     (if i < unat numSamples then
        if 2 * i + 1 < length (src_buf m) \<and> i < length (dst_buf m) then
          if i < INT_MAX then
            fast_loop h numSamples (i + 1)
              (m\<lparr>dst_buf := (dst_buf m)[i := fast_sample h (src_buf m) i]\<rparr>)
          else Inl SignedOverflow
        else Inl OutOfBounds
      else Inr m)"
  by pat_completeness auto
termination
  by (relation "measure (\<lambda>(h, numSamples, i, m). unat numSamples - i)") auto

text \<open>The byte-by-byte loop also computes \<open>2 * i + 1\<close> in \<open>int\<close>.\<close>

function fallback_loop :: "32 word \<Rightarrow> nat \<Rightarrow> buffers \<Rightarrow> fault + buffers" where
  "fallback_loop numSamples i m =
     (if i < unat numSamples then
        if 2 * i + 1 \<le> INT_MAX then
          if 2 * i + 1 < length (src_buf m) \<and> i < length (dst_buf m) then
            if i < INT_MAX then
              fallback_loop numSamples (i + 1)
                (m\<lparr>dst_buf := (dst_buf m)[i := fallback_sample (src_buf m) i]\<rparr>)
            else Inl SignedOverflow
          else Inl OutOfBounds
        else Inl SignedOverflow
      else Inr m)"
  by pat_completeness auto
termination
  by (relation "measure (\<lambda>(numSamples, i, m). unat numSamples - i)") auto

declare fast_loop.simps [simp del]
declare fallback_loop.simps [simp del]

text \<open>
  \<^verbatim>\<open>const uint16_t one = 1; if (reinterpret_cast<const uint8_t*>(&one)[0] == 1)\<close>
  looks at the first byte of \<open>one\<close> as the host \<open>h\<close> stores it.
\<close>

definition vw_pcm16sleDecode :: "endianness \<Rightarrow> buffers \<Rightarrow> 32 word \<Rightarrow> fault + buffers" where
  "vw_pcm16sleDecode h m numSamples =
     (let one = (1 :: 16 word) in
      if store_u16 h one ! 0 = 1 then fast_loop h numSamples 0 m
      else fallback_loop numSamples 0 m)"

section \<open>mem.cc\<close>

text \<open>
  \<open>malloc\<close> and \<open>free\<close> belong to the C library, not to this module: they are parameters.
  An allocator takes the number of bytes and the heap and returns an address (0 is the
  null pointer) and the heap after the call.
\<close>

type_synonym 'h allocator = "32 word \<Rightarrow> 'h \<Rightarrow> 32 word \<times> 'h"
type_synonym 'h deallocator = "32 word \<Rightarrow> 'h \<Rightarrow> 'h"

definition vw_alloc :: "'h allocator \<Rightarrow> 32 word \<Rightarrow> 'h \<Rightarrow> 32 word \<times> 'h" where
  "vw_alloc malloc numBytes heap = malloc numBytes heap"

definition vw_free :: "'h deallocator \<Rightarrow> 32 word \<Rightarrow> 'h \<Rightarrow> 'h" where
  "vw_free free ptr heap = free ptr heap"

section \<open>Notions used by the properties\<close>

text \<open>
  The sample that a host of byte order \<open>h\<close> writes for index \<open>i\<close>: the branch that
  \<open>vw_pcm16sleDecode\<close> takes on that host.
\<close>

definition host_sample :: "endianness \<Rightarrow> 8 word list \<Rightarrow> nat \<Rightarrow> float32" where
  "host_sample h src i =
     (case h of LittleEndian \<Rightarrow> fast_sample h src i | BigEndian \<Rightarrow> fallback_sample src i)"

text \<open>
  Buffers are well sized for \<open>numSamples\<close> when \<open>src\<close> holds at least \<open>2 * numSamples\<close>
  bytes and \<open>dst\<close> at least \<open>numSamples\<close> floats. Both lie in a 32-bit address space, a
  float taking four bytes.
\<close>

definition well_sized :: "buffers \<Rightarrow> 32 word \<Rightarrow> bool" where
  "well_sized m numSamples \<longleftrightarrow>
     2 * unat numSamples \<le> length (src_buf m) \<and> unat numSamples \<le> length (dst_buf m) \<and>
     length (src_buf m) < 2 ^ 32 \<and> 4 * length (dst_buf m) < 2 ^ 32"

text \<open>
  The decoded sample in the words of the specification (section 4.2, steps 1 to 3), for
  comparison with the code: the byte at offset \<open>2*i\<close> is the low-order byte, the byte at
  \<open>2*i+1\<close> the high-order byte of a two's-complement 16-bit integer, which is divided by
  32768.
\<close>

definition spec_sample :: "8 word list \<Rightarrow> nat \<Rightarrow> float32" where
  "spec_sample src i =
     (let lo = src ! (2 * i); hi = src ! (2 * i + 1);
          signed16 = sint (push_bit 8 (ucast hi) OR ucast lo :: 16 word)
      in of_int signed16 / 32768)"

section \<open>The host memory manager\<close>

text \<open>
  Modelled from the spec: the host memory manager behind \<open>malloc\<close>, which is part of the C
  library and not of this repository (section 4.1: a request is for a contiguous region
  of at least \<open>numBytes\<close> bytes; the result is an address the caller can use, or the null
  address when the manager cannot satisfy the request).

  A manager is described by the heaps it can be in, by the requests it can satisfy in a
  heap, and by the regions (address and size) it has handed out and not taken back.
\<close>

record 'h manager =
  heap_ok :: "'h \<Rightarrow> bool"
  can_satisfy :: "'h \<Rightarrow> 32 word \<Rightarrow> bool"
  live :: "'h \<Rightarrow> (32 word \<times> 32 word) list"

text \<open>
  Modelled from the spec: a region of \<open>n\<close> bytes at address \<open>p\<close> is usable when \<open>p\<close> is not
  null, the region lies in the 32-bit address space, and it overlaps none of the other
  regions in use.
\<close>

definition region_usable :: "(32 word \<times> 32 word) list \<Rightarrow> 32 word \<Rightarrow> 32 word \<Rightarrow> bool" where
  "region_usable others p n \<longleftrightarrow>
     p \<noteq> 0 \<and> unat p + unat n \<le> 2 ^ 32 \<and>
     list_all (\<lambda>(q, sz). unat p + unat n \<le> unat q \<or> unat q + unat sz \<le> unat p) others"

text \<open>
  Modelled from the spec: what \<open>malloc\<close> owes its caller. In a heap of the manager, a
  request that can be satisfied yields a usable region, which is in use from then on; a
  request that cannot be satisfied yields the null address and takes no region into
  use. Either way the manager stays in one of its heaps.
\<close>

definition malloc_contract :: "'h manager \<Rightarrow> 'h allocator \<Rightarrow> bool" where
  "malloc_contract mgr malloc \<longleftrightarrow>
     (\<forall>n h. heap_ok mgr h \<longrightarrow>
        (case malloc n h of (p, h') \<Rightarrow>
           heap_ok mgr h' \<and>
           (if can_satisfy mgr h n
            then region_usable (live mgr h) p n \<and> live mgr h' = (p, n) # live mgr h
            else p = 0 \<and> live mgr h' = live mgr h)))"

subsection \<open>A manager to try the contract on\<close>

text \<open>
  A bump allocator over one 64 KiB page: the heap is the next free address and the list
  of regions handed out. Address 0 is never handed out.
\<close>

type_synonym bump_heap = "nat \<times> (32 word \<times> 32 word) list"

definition bump_limit :: nat where
  "bump_limit = 65536"

definition bump_manager :: "bump_heap manager" where
  "bump_manager =
     \<lparr>heap_ok = (\<lambda>h. 0 < fst h \<and> fst h \<le> bump_limit \<and>
                      list_all (\<lambda>(q, sz). unat q + unat sz \<le> fst h) (snd h)),
      can_satisfy = (\<lambda>h n. fst h + unat n \<le> bump_limit),
      live = snd\<rparr>"

definition bump_malloc :: "bump_heap allocator" where
  "bump_malloc numBytes h =
     (if fst h + unat numBytes \<le> bump_limit
      then (of_nat (fst h), (fst h + unat numBytes, (of_nat (fst h), numBytes) # snd h))
      else (0, h))"

section \<open>The loops\<close>

text \<open>
  On buffers that are large enough, and as long as the counter stays below \<open>INT_MAX\<close>,
  each loop runs to its end without a fault: it replaces \<open>dst[i..numSamples)\<close> by the
  samples and leaves everything else as it was.
\<close>

lemma fast_loop_run:
  assumes "i \<le> unat n" "2 * unat n \<le> length (src_buf m)" "unat n \<le> length (dst_buf m)"
    "unat n \<le> INT_MAX"
  shows "fast_loop h n i m =
    Inr (m\<lparr>dst_buf := take i (dst_buf m) @ map (fast_sample h (src_buf m)) [i..<unat n]
                       @ drop (unat n) (dst_buf m)\<rparr>)"
  using assms
proof (induction h n i m rule: fast_loop.induct)
  case (1 h n i m)
  show ?case
  proof (cases "i < unat n")
    case False
    with "1.prems" have eq: "i = unat n" by simp
    have "fast_loop h n i m = Inr m"
      using False by (subst fast_loop.simps) simp
    then show ?thesis
      using eq by simp
  next
    case True
    let ?s = "fast_sample h (src_buf m) i"
    let ?m' = "m\<lparr>dst_buf := (dst_buf m)[i := ?s]\<rparr>"
    from True "1.prems" have acc: "2 * i + 1 < length (src_buf m) \<and> i < length (dst_buf m)"
      and ov: "i < INT_MAX"
      by auto
    have "fast_loop h n i m = fast_loop h n (i + 1) ?m'"
      using True acc ov by (subst fast_loop.simps) simp
    also have "\<dots> = Inr (?m'\<lparr>dst_buf := take (i + 1) (dst_buf ?m') @
        map (fast_sample h (src_buf ?m')) [i + 1..<unat n] @ drop (unat n) (dst_buf ?m')\<rparr>)"
      using True acc ov "1.prems" by (intro "1.IH") auto
    also have "take (i + 1) (dst_buf ?m') = take i (dst_buf m) @ [?s]"
      using acc by (simp add: take_Suc_conv_app_nth)
    also have "drop (unat n) (dst_buf ?m') = drop (unat n) (dst_buf m)"
      using True by simp
    also have "src_buf ?m' = src_buf m" by simp
    finally show ?thesis
      using True by (simp add: upt_conv_Cons)
  qed
qed

lemma fallback_loop_run:
  assumes "i \<le> unat n" "2 * unat n \<le> length (src_buf m)" "unat n \<le> length (dst_buf m)"
    "2 * unat n \<le> INT_MAX"
  shows "fallback_loop n i m =
    Inr (m\<lparr>dst_buf := take i (dst_buf m) @ map (fallback_sample (src_buf m)) [i..<unat n]
                       @ drop (unat n) (dst_buf m)\<rparr>)"
  using assms
proof (induction n i m rule: fallback_loop.induct)
  case (1 n i m)
  show ?case
  proof (cases "i < unat n")
    case False
    with "1.prems" have eq: "i = unat n" by simp
    have "fallback_loop n i m = Inr m"
      using False by (subst fallback_loop.simps) simp
    then show ?thesis
      using eq by simp
  next
    case True
    let ?s = "fallback_sample (src_buf m) i"
    let ?m' = "m\<lparr>dst_buf := (dst_buf m)[i := ?s]\<rparr>"
    from True "1.prems" have acc: "2 * i + 1 < length (src_buf m) \<and> i < length (dst_buf m)"
      and ov: "2 * i + 1 \<le> INT_MAX" "i < INT_MAX"
      by auto
    have "fallback_loop n i m = fallback_loop n (i + 1) ?m'"
      using True acc ov by (subst fallback_loop.simps) simp
    also have "\<dots> = Inr (?m'\<lparr>dst_buf := take (i + 1) (dst_buf ?m') @
        map (fallback_sample (src_buf ?m')) [i + 1..<unat n] @ drop (unat n) (dst_buf ?m')\<rparr>)"
      using True acc ov "1.prems" by (intro "1.IH") auto
    also have "take (i + 1) (dst_buf ?m') = take i (dst_buf m) @ [?s]"
      using acc by (simp add: take_Suc_conv_app_nth)
    also have "drop (unat n) (dst_buf ?m') = drop (unat n) (dst_buf m)"
      using True by simp
    also have "src_buf ?m' = src_buf m" by simp
    finally show ?thesis
      using True by (simp add: upt_conv_Cons)
  qed
qed

text \<open>The test on the first byte of \<open>one\<close> selects the fast path exactly on a little-endian host.\<close>

lemma host_test: "store_u16 h 1 ! 0 = 1 \<longleftrightarrow> h = LittleEndian"
  by (cases h) simp_all

lemma well_sized_bounds:
  assumes "well_sized m n"
  shows "2 * unat n \<le> length (src_buf m)" "unat n \<le> length (dst_buf m)" "2 * unat n \<le> INT_MAX"
  using assms by (simp_all add: well_sized_def INT_MAX_def)

lemma decode_run:
  assumes "well_sized m n"
  shows "vw_pcm16sleDecode h m n =
    Inr (m\<lparr>dst_buf := map (host_sample h (src_buf m)) [0..<unat n] @ drop (unat n) (dst_buf m)\<rparr>)"
proof (cases h)
  case LittleEndian
  have "fast_loop h n 0 m =
      Inr (m\<lparr>dst_buf := take 0 (dst_buf m) @ map (fast_sample h (src_buf m)) [0..<unat n]
                       @ drop (unat n) (dst_buf m)\<rparr>)"
    using well_sized_bounds [OF assms] by (intro fast_loop_run) simp_all
  then show ?thesis
    using LittleEndian by (simp add: vw_pcm16sleDecode_def host_sample_def)
next
  case BigEndian
  have "fallback_loop n 0 m =
      Inr (m\<lparr>dst_buf := take 0 (dst_buf m) @ map (fallback_sample (src_buf m)) [0..<unat n]
                       @ drop (unat n) (dst_buf m)\<rparr>)"
    using well_sized_bounds [OF assms] by (intro fallback_loop_run) simp_all
  then show ?thesis
    using BigEndian by (simp add: vw_pcm16sleDecode_def host_sample_def)
qed

section \<open>The samples\<close>

lemma uint16_range: "0 \<le> uint (w :: 16 word) \<and> uint w < 65536"
  using uint_bounded [of w] by simp

lemma sint16_range: "- 32768 \<le> sint (w :: 16 word) \<and> sint w < 32768"
  using sint_ge [of w] sint_lt [of w] by simp

lemma u16_rat: "(0::rat) \<le> of_int (uint (w :: 16 word)) \<and> (of_int (uint w) :: rat) < 65536"
proof -
  have "(of_int (uint w) :: rat) < of_int 65536"
    using uint16_range [of w] by (simp only: of_int_less_iff)
  moreover have "(of_int 0 :: rat) \<le> of_int (uint w)"
    using uint16_range [of w] by (simp only: of_int_le_iff)
  ultimately show ?thesis by simp
qed

lemma s16_rat: "(- 32768 :: rat) \<le> of_int (sint (w :: 16 word)) \<and> (of_int (sint w) :: rat) < 32768"
proof -
  have "(of_int (sint w) :: rat) < of_int 32768"
    using sint16_range [of w] by (simp only: of_int_less_iff)
  moreover have "(of_int (- 32768) :: rat) \<le> of_int (sint w)"
    using sint16_range [of w] by (simp only: of_int_le_iff)
  ultimately show ?thesis by simp
qed

text \<open>The fast path yields values in \<open>[0, 2)\<close>, the byte-by-byte path values in \<open>[-1, 1)\<close>.\<close>

lemma fast_sample_range: "0 \<le> fast_sample h src i \<and> fast_sample h src i < 2"
  using u16_rat [of "load_u16 h (src ! (2 * i)) (src ! (2 * i + 1))"]
  by (simp add: fast_sample_def Let_def)

lemma fallback_sample_range: "- 1 \<le> fallback_sample src i \<and> fallback_sample src i < 1"
  using s16_rat [of "word_of_int (push_bit 8 (uint (src ! (2 * i))) OR uint (src ! (2 * i + 1)))"]
  by (simp add: fallback_sample_def Let_def)

text \<open>Every sample is a binary32 value: the rational model loses nothing to rounding.\<close>

lemma fast_sample_exact: "float32_exact (fast_sample h src i)"
proof -
  let ?k = "uint (load_u16 h (src ! (2 * i)) (src ! (2 * i + 1)))"
  have "\<bar>?k\<bar> < 2 ^ 24"
    using uint16_range [of "load_u16 h (src ! (2 * i)) (src ! (2 * i + 1))"] by simp
  moreover have "fast_sample h src i = of_int ?k / 2 ^ 15"
    by (simp add: fast_sample_def Let_def)
  ultimately show ?thesis
    unfolding float32_exact_def by blast
qed

lemma fallback_sample_exact: "float32_exact (fallback_sample src i)"
proof -
  let ?k = "sint (word_of_int (push_bit 8 (uint (src ! (2 * i))) OR uint (src ! (2 * i + 1))) :: 16 word)"
  have "\<bar>?k\<bar> < 2 ^ 24"
    using sint16_range [of "word_of_int (push_bit 8 (uint (src ! (2 * i))) OR uint (src ! (2 * i + 1)))"]
    by (simp add: abs_less_iff)
  moreover have "fallback_sample src i = of_int ?k / 2 ^ 15"
    by (simp add: fallback_sample_def Let_def)
  ultimately show ?thesis
    unfolding float32_exact_def by blast
qed

text \<open>A sample with index below \<open>n\<close> depends on the first \<open>2 * n\<close> bytes only.\<close>

lemma host_sample_take:
  assumes "i < n"
  shows "host_sample h (take (2 * n) src) i = host_sample h src i"
  using assms by (cases h) (simp_all add: host_sample_def fast_sample_def fallback_sample_def)

text \<open>A 16-bit value read back by the host that stored it is the value stored.\<close>

lemma load_store_u16: "store_u16 h w = [b0, b1] \<Longrightarrow> load_u16 h b0 b1 = w"
  by (cases h; rule bit_word_eqI) (auto simp add: bit_simps)

subsection \<open>The code against the specification's sample\<close>

lemma uint_sint16: "uint (w :: 16 word) = sint w + (if sint w < 0 then 65536 else 0)"
proof (cases "sint w < 0")
  case True
  have "uint w = (sint w + 65536) mod 65536"
    by (simp add: uint_sint take_bit_eq_mod)
  also have "\<dots> = sint w + 65536"
    using True sint16_range [of w] by (intro mod_pos_pos_trivial) simp_all
  finally show ?thesis
    using True by simp
next
  case False
  have "uint w = sint w mod 65536"
    by (simp add: uint_sint take_bit_eq_mod)
  also have "\<dots> = sint w"
    using False sint16_range [of w] by (intro mod_pos_pos_trivial) simp_all
  finally show ?thesis
    using False by simp
qed

text \<open>
  The fast path takes the bytes in the order of the specification but reads the 16-bit
  value as unsigned: every negative sample comes out 2 too large.
\<close>

lemma fast_sample_vs_spec:
  "fast_sample LittleEndian src i = spec_sample src i + (if spec_sample src i < 0 then 2 else 0)"
proof -
  let ?w = "push_bit 8 (ucast (src ! (2 * i + 1))) OR ucast (src ! (2 * i)) :: 16 word"
  have "(of_int (uint ?w) :: rat) = of_int (sint ?w) + (if sint ?w < 0 then 65536 else 0)"
    by (subst uint_sint16) (simp del: of_int_sint of_int_uint)
  then show ?thesis
    by (simp add: fast_sample_def spec_sample_def Let_def add_divide_distrib divide_less_0_iff
        del: of_int_sint of_int_uint)
qed

lemma narrow_bytes:
  "(word_of_int (push_bit 8 (uint (b0 :: 8 word)) OR uint (b1 :: 8 word)) :: 16 word)
     = push_bit 8 (ucast b0) OR ucast b1"
  by (rule bit_word_eqI) (auto simp add: bit_simps)

text \<open>
  The byte-by-byte path reads a signed value but takes the first byte as the high-order
  one: it computes the specification's sample of the two bytes swapped.
\<close>

lemma fallback_sample_vs_spec: "fallback_sample [b0, b1] 0 = spec_sample [b1, b0] 0"
  by (simp add: fallback_sample_def spec_sample_def narrow_bytes)

lemmas decode_eval =
  vw_pcm16sleDecode_def fast_loop.simps fallback_loop.simps fast_sample_def fallback_sample_def
  INT_MAX_def spec_sample_def

section \<open>Properties of the decoder\<close>

text \<open>
  Claim C1. For every signed 16-bit integer \<open>v\<close> and every index \<open>i\<close> below \<open>numSamples\<close>,
  if the bytes of \<open>src\<close> at offsets \<open>2*i\<close> and \<open>2*i+1\<close> are the little-endian encoding of
  \<open>v\<close>, then \<open>vw_pcm16sleDecode\<close> writes \<open>dst[i] = v / 32768\<close>.

  The code does not do this. On a little-endian host the encoding \<open>0x00, 0x80\<close> of
  \<open>v = -32768\<close> is decoded to \<open>1\<close>, where the specification's sample is \<open>-1\<close>; on a
  big-endian host the encoding \<open>0x01, 0x00\<close> of \<open>v = 1\<close> is decoded to \<open>256 / 32768\<close>,
  where the specification's sample is \<open>1 / 32768\<close>.
\<close>

theorem decode_le_sample_diverges:
  "vw_pcm16sleDecode LittleEndian
      \<lparr>src_buf = store_u16 LittleEndian (word_of_int (- 32768)), dst_buf = [0]\<rparr> 1
    = Inr \<lparr>src_buf = [0x00, 0x80], dst_buf = [1]\<rparr>
   \<and> spec_sample (store_u16 LittleEndian (word_of_int (- 32768))) 0 = of_int (- 32768) / 32768
   \<and> vw_pcm16sleDecode BigEndian
      \<lparr>src_buf = store_u16 LittleEndian (word_of_int 1), dst_buf = [0]\<rparr> 1
    = Inr \<lparr>src_buf = [0x01, 0x00], dst_buf = [256 / 32768]\<rparr>
   \<and> spec_sample (store_u16 LittleEndian (word_of_int 1)) 0 = of_int 1 / 32768"
  by (simp add: decode_eval)

text \<open>
  Claim C2. For every input byte buffer and every \<open>numSamples\<close>, the little-endian fast
  path and the byte-by-byte fallback path of \<open>vw_pcm16sleDecode\<close> write the same floats.

  The code does not do this. On the input bytes \<open>0x01, 0x00\<close> the fast path writes
  \<open>1 / 32768\<close> and the fallback path writes \<open>256 / 32768\<close>.
\<close>

theorem decode_paths_differ:
  "vw_pcm16sleDecode LittleEndian \<lparr>src_buf = [0x01, 0x00], dst_buf = [0]\<rparr> 1
    = Inr \<lparr>src_buf = [0x01, 0x00], dst_buf = [1 / 32768]\<rparr>
   \<and> vw_pcm16sleDecode BigEndian \<lparr>src_buf = [0x01, 0x00], dst_buf = [0]\<rparr> 1
    = Inr \<lparr>src_buf = [0x01, 0x00], dst_buf = [256 / 32768]\<rparr>
   \<and> vw_pcm16sleDecode LittleEndian \<lparr>src_buf = [0x01, 0x00], dst_buf = [0]\<rparr> 1
    \<noteq> vw_pcm16sleDecode BigEndian \<lparr>src_buf = [0x01, 0x00], dst_buf = [0]\<rparr> 1"
  by (simp add: decode_eval)

text \<open>
  Claim C3. For every index \<open>i\<close>, \<open>vw_pcm16sleDecode\<close> takes the byte at offset \<open>2*i\<close> as
  the low-order byte and the byte at offset \<open>2*i+1\<close> as the high-order byte of a 16-bit
  two's-complement signed integer, on the fast path and on the fallback path.

  The code does not do this on either path. The fast path reads the bytes \<open>0xFF, 0xFF\<close>
  (the signed integer \<open>-1\<close>) as the unsigned integer 65535. The fallback path reads the
  bytes \<open>0x34, 0x12\<close> (the integer \<open>0x1234 = 4660\<close>) as \<open>0x3412 = 13330\<close>: the byte at
  offset \<open>2*i\<close> is its high-order byte.
\<close>

theorem decode_byte_roles_diverge:
  "vw_pcm16sleDecode LittleEndian \<lparr>src_buf = [0xFF, 0xFF], dst_buf = [0]\<rparr> 1
    = Inr \<lparr>src_buf = [0xFF, 0xFF], dst_buf = [65535 / 32768]\<rparr>
   \<and> spec_sample [0xFF, 0xFF] 0 = - 1 / 32768
   \<and> vw_pcm16sleDecode BigEndian \<lparr>src_buf = [0x34, 0x12], dst_buf = [0]\<rparr> 1
    = Inr \<lparr>src_buf = [0x34, 0x12], dst_buf = [13330 / 32768]\<rparr>
   \<and> spec_sample [0x34, 0x12] 0 = 4660 / 32768"
  by (simp add: decode_eval)

text \<open>
  Claim C4. The boundary samples decode as follows: the bytes \<open>0x00, 0x80\<close> (the integer
  \<open>-32768\<close>) give exactly \<open>-1\<close>, the bytes \<open>0x00, 0x00\<close> give \<open>0\<close>, and the bytes
  \<open>0xFF, 0x7F\<close> (the integer 32767) give \<open>32767 / 32768\<close> and not \<open>1\<close>.

  The code does not do this. For the three samples in this order the fast path writes
  \<open>1\<close>, \<open>0\<close> and \<open>32767 / 32768\<close>, and the fallback path writes \<open>128 / 32768\<close>, \<open>0\<close> and
  \<open>-129 / 32768\<close>. Only the zero sample has the value claimed on both paths.
\<close>

theorem decode_boundary_values:
  "vw_pcm16sleDecode LittleEndian
      \<lparr>src_buf = [0x00, 0x80, 0x00, 0x00, 0xFF, 0x7F], dst_buf = [0, 0, 0]\<rparr> 3
    = Inr \<lparr>src_buf = [0x00, 0x80, 0x00, 0x00, 0xFF, 0x7F], dst_buf = [1, 0, 32767 / 32768]\<rparr>
   \<and> vw_pcm16sleDecode BigEndian
      \<lparr>src_buf = [0x00, 0x80, 0x00, 0x00, 0xFF, 0x7F], dst_buf = [0, 0, 0]\<rparr> 3
    = Inr \<lparr>src_buf = [0x00, 0x80, 0x00, 0x00, 0xFF, 0x7F],
          dst_buf = [128 / 32768, 0, - 129 / 32768]\<rparr>"
  by (simp add: decode_eval)

text \<open>
  Claim C5. For every input byte buffer and every \<open>numSamples\<close>, every float that
  \<open>vw_pcm16sleDecode\<close> writes to \<open>dst\<close> lies in the half-open interval from \<open>-1\<close> to \<open>1\<close>.

  The code does not do this on the fast path: the bytes \<open>0x00, 0xC0\<close> (the integer
  \<open>-16384\<close>) are decoded to \<open>3 / 2\<close>.
\<close>

theorem decode_fast_path_exceeds_one:
  "vw_pcm16sleDecode LittleEndian \<lparr>src_buf = [0x00, 0xC0], dst_buf = [0]\<rparr> 1
    = Inr \<lparr>src_buf = [0x00, 0xC0], dst_buf = [3 / 2]\<rparr>
   \<and> spec_sample [0x00, 0xC0] 0 = - 1 / 2"
  by (simp add: decode_eval)

text \<open>
  Claim C6. A call with \<open>numSamples = 0\<close> reads nothing from \<open>src\<close>, writes nothing to
  \<open>dst\<close> and returns without error: for every \<open>src\<close> and \<open>dst\<close>, also empty ones, and on
  either host, the call succeeds and leaves both buffers as they were.
\<close>

theorem decode_zero_samples: "vw_pcm16sleDecode h m 0 = Inr m"
  by (cases h) (simp_all add: vw_pcm16sleDecode_def fast_loop.simps fallback_loop.simps)

text \<open>
  Claim C8. \<open>vw_pcm16sleDecode\<close> is deterministic and keeps no state: two calls with the
  same input bytes and the same \<open>numSamples\<close>, writing to two different output buffers,
  both return and leave the same \<open>numSamples\<close> floats in the two output buffers.
\<close>

theorem decode_deterministic:
  assumes "well_sized m1 n" "well_sized m2 n"
    and "take (2 * unat n) (src_buf m1) = take (2 * unat n) (src_buf m2)"
  shows "\<exists>r1 r2. vw_pcm16sleDecode h m1 n = Inr r1 \<and> vw_pcm16sleDecode h m2 n = Inr r2 \<and>
    take (unat n) (dst_buf r1) = take (unat n) (dst_buf r2)"
proof -
  have "map (host_sample h (src_buf m1)) [0..<unat n] = map (host_sample h (src_buf m2)) [0..<unat n]"
  proof (rule map_cong [OF refl])
    fix i assume "i \<in> set [0..<unat n]"
    then have "i < unat n" by simp
    then show "host_sample h (src_buf m1) i = host_sample h (src_buf m2) i"
      using host_sample_take [of i "unat n" h "src_buf m1"]
        host_sample_take [of i "unat n" h "src_buf m2"] assms(3)
      by simp
  qed
  then show ?thesis
    by (simp add: decode_run [OF assms(1)] decode_run [OF assms(2)])
qed

theorem decode_deterministic_witness:
  "well_sized \<lparr>src_buf = [0x34, 0x12, 0xFF, 0xFF], dst_buf = [0, 0]\<rparr> 2
   \<and> well_sized \<lparr>src_buf = [0x34, 0x12, 0xFF, 0xFF, 0x07], dst_buf = [5, 6, 7]\<rparr> 2
   \<and> vw_pcm16sleDecode LittleEndian \<lparr>src_buf = [0x34, 0x12, 0xFF, 0xFF], dst_buf = [0, 0]\<rparr> 2
     = Inr \<lparr>src_buf = [0x34, 0x12, 0xFF, 0xFF], dst_buf = [4660 / 32768, 65535 / 32768]\<rparr>
   \<and> (\<exists>r1 r2.
        vw_pcm16sleDecode LittleEndian \<lparr>src_buf = [0x34, 0x12, 0xFF, 0xFF], dst_buf = [0, 0]\<rparr> 2
          = Inr r1
      \<and> vw_pcm16sleDecode LittleEndian
           \<lparr>src_buf = [0x34, 0x12, 0xFF, 0xFF, 0x07], dst_buf = [5, 6, 7]\<rparr> 2
          = Inr r2
      \<and> take (unat (2 :: 32 word)) (dst_buf r1) = take (unat (2 :: 32 word)) (dst_buf r2))"
proof -
  let ?m1 = "\<lparr>src_buf = [0x34, 0x12, 0xFF, 0xFF], dst_buf = [0, 0 :: float32]\<rparr>"
  let ?m2 = "\<lparr>src_buf = [0x34, 0x12, 0xFF, 0xFF, 0x07], dst_buf = [5, 6, 7 :: float32]\<rparr>"
  have ws1: "well_sized ?m1 2" and ws2: "well_sized ?m2 2"
    by (simp_all add: well_sized_def)
  have same: "take (2 * unat (2 :: 32 word)) (src_buf ?m1) = take (2 * unat (2 :: 32 word)) (src_buf ?m2)"
    by simp
  have run: "vw_pcm16sleDecode LittleEndian ?m1 2
      = Inr \<lparr>src_buf = [0x34, 0x12, 0xFF, 0xFF], dst_buf = [4660 / 32768, 65535 / 32768]\<rparr>"
    by (simp add: decode_eval)
  from ws1 ws2 run decode_deterministic [OF ws1 ws2 same, of LittleEndian]
  show ?thesis by (intro conjI)
qed

text \<open>
  Claim C9. \<open>vw_pcm16sleDecode\<close> never changes the input bytes, and it overwrites exactly
  the output positions \<open>dst[0]\<close> to \<open>dst[numSamples-1]\<close>: a call with well-sized buffers
  returns with \<open>src\<close> as it was, with each of the first \<open>numSamples\<close> positions of \<open>dst\<close>
  holding the sample the host's path computes for it, and with every later position of
  \<open>dst\<close> as it was.
\<close>

theorem decode_frame:
  assumes "well_sized m n"
  shows "\<exists>m'. vw_pcm16sleDecode h m n = Inr m' \<and> src_buf m' = src_buf m \<and>
    length (dst_buf m') = length (dst_buf m) \<and>
    take (unat n) (dst_buf m') = map (host_sample h (src_buf m)) [0..<unat n] \<and>
    drop (unat n) (dst_buf m') = drop (unat n) (dst_buf m)"
  using well_sized_bounds(2) [OF assms] by (simp add: decode_run [OF assms])

theorem decode_frame_witness:
  "well_sized \<lparr>src_buf = [0x34, 0x12, 0x00, 0x80, 0x07], dst_buf = [5, 6, 7]\<rparr> 2
   \<and> vw_pcm16sleDecode BigEndian \<lparr>src_buf = [0x34, 0x12, 0x00, 0x80, 0x07], dst_buf = [5, 6, 7]\<rparr> 2
     = Inr \<lparr>src_buf = [0x34, 0x12, 0x00, 0x80, 0x07], dst_buf = [13330 / 32768, 128 / 32768, 7]\<rparr>
   \<and> (\<exists>m'. vw_pcm16sleDecode BigEndian
          \<lparr>src_buf = [0x34, 0x12, 0x00, 0x80, 0x07], dst_buf = [5, 6, 7]\<rparr> 2 = Inr m'
      \<and> src_buf m' = src_buf \<lparr>src_buf = [0x34, 0x12, 0x00, 0x80, 0x07], dst_buf = [5, 6, 7 :: float32]\<rparr>
      \<and> length (dst_buf m')
          = length (dst_buf \<lparr>src_buf = [0x34, 0x12, 0x00, 0x80, 0x07], dst_buf = [5, 6, 7 :: float32]\<rparr>)
      \<and> take (unat (2 :: 32 word)) (dst_buf m')
          = map (host_sample BigEndian
              (src_buf \<lparr>src_buf = [0x34, 0x12, 0x00, 0x80, 0x07], dst_buf = [5, 6, 7 :: float32]\<rparr>))
              [0..<unat (2 :: 32 word)]
      \<and> drop (unat (2 :: 32 word)) (dst_buf m')
          = drop (unat (2 :: 32 word))
              (dst_buf \<lparr>src_buf = [0x34, 0x12, 0x00, 0x80, 0x07], dst_buf = [5, 6, 7 :: float32]\<rparr>))"
proof -
  let ?m = "\<lparr>src_buf = [0x34, 0x12, 0x00, 0x80, 0x07], dst_buf = [5, 6, 7 :: float32]\<rparr>"
  have ws: "well_sized ?m 2"
    by (simp add: well_sized_def)
  have run: "vw_pcm16sleDecode BigEndian ?m 2
      = Inr \<lparr>src_buf = [0x34, 0x12, 0x00, 0x80, 0x07], dst_buf = [13330 / 32768, 128 / 32768, 7]\<rparr>"
    by (simp add: decode_eval)
  from ws run decode_frame [OF ws, of BigEndian]
  show ?thesis by (intro conjI)
qed

text \<open>
  Claim C10. On a little-endian host, where the fast path runs, every float that
  \<open>vw_pcm16sleDecode\<close> writes is non-negative and strictly less than 2, for every input
  byte buffer: the fast path reads each sample as an unsigned 16-bit integer before it
  divides by 32768. A call with well-sized buffers returns, and each of the
  \<open>numSamples\<close> floats it has written lies in the interval from 0 to 2, 2 excluded.
\<close>

theorem fast_path_range:
  assumes "well_sized m n"
  shows "\<exists>m'. vw_pcm16sleDecode LittleEndian m n = Inr m' \<and>
    (\<forall>i < unat n. 0 \<le> dst_buf m' ! i \<and> dst_buf m' ! i < 2)"
  using fast_sample_range
  by (simp add: decode_run [OF assms] nth_append host_sample_def)

theorem fast_path_range_witness:
  "well_sized \<lparr>src_buf = [0x00, 0x80, 0xFF, 0xFF], dst_buf = [- 3, 9]\<rparr> 2
   \<and> vw_pcm16sleDecode LittleEndian \<lparr>src_buf = [0x00, 0x80, 0xFF, 0xFF], dst_buf = [- 3, 9]\<rparr> 2
     = Inr \<lparr>src_buf = [0x00, 0x80, 0xFF, 0xFF], dst_buf = [1, 65535 / 32768]\<rparr>
   \<and> (\<exists>m'. vw_pcm16sleDecode LittleEndian
          \<lparr>src_buf = [0x00, 0x80, 0xFF, 0xFF], dst_buf = [- 3, 9]\<rparr> 2 = Inr m'
      \<and> (\<forall>i < unat (2 :: 32 word). 0 \<le> dst_buf m' ! i \<and> dst_buf m' ! i < 2))"
proof -
  let ?m = "\<lparr>src_buf = [0x00, 0x80, 0xFF, 0xFF], dst_buf = [- 3, 9 :: float32]\<rparr>"
  have ws: "well_sized ?m 2"
    by (simp add: well_sized_def)
  have run: "vw_pcm16sleDecode LittleEndian ?m 2
      = Inr \<lparr>src_buf = [0x00, 0x80, 0xFF, 0xFF], dst_buf = [1, 65535 / 32768]\<rparr>"
    by (simp add: decode_eval)
  from ws run fast_path_range [OF ws]
  show ?thesis by (intro conjI)
qed

section \<open>Properties of the allocator\<close>

text \<open>What a caller of \<open>malloc\<close> gets from the contract, for one call.\<close>

lemma malloc_contractD:
  assumes "malloc_contract mgr malloc" and "heap_ok mgr h" and "malloc n h = (p, h')"
  shows "heap_ok mgr h'"
    and "can_satisfy mgr h n \<Longrightarrow> region_usable (live mgr h) p n \<and> live mgr h' = (p, n) # live mgr h"
    and "\<not> can_satisfy mgr h n \<Longrightarrow> p = 0 \<and> live mgr h' = live mgr h"
  using assms(1) [unfolded malloc_contract_def, rule_format, OF assms(2), of n] assms(3)
  by simp_all

text \<open>The bump allocator keeps the contract, so the contract can be met.\<close>

lemma bump_address:
  assumes "a \<le> bump_limit"
  shows "unat (of_nat a :: 32 word) = a"
  using assms by (simp add: unat_of_nat bump_limit_def)

lemma bump_malloc_contract: "malloc_contract bump_manager bump_malloc"
  unfolding malloc_contract_def
proof (intro allI impI)
  fix n :: "32 word" and h :: bump_heap
  assume ok: "heap_ok bump_manager h"
  obtain a rs where h: "h = (a, rs)" by (cases h)
  from ok h have a: "0 < a" "a \<le> bump_limit"
    and rs: "list_all (\<lambda>(q, sz). unat q + unat sz \<le> a) rs"
    by (simp_all add: bump_manager_def)
  show "case bump_malloc n h of (p, h') \<Rightarrow>
      heap_ok bump_manager h' \<and>
      (if can_satisfy bump_manager h n
       then region_usable (live bump_manager h) p n \<and> live bump_manager h' = (p, n) # live bump_manager h
       else p = 0 \<and> live bump_manager h' = live bump_manager h)"
  proof (cases "a + unat n \<le> bump_limit")
    case False
    with ok h show ?thesis
      by (simp add: bump_malloc_def bump_manager_def)
  next
    case True
    have p: "unat (of_nat a :: 32 word) = a"
      using a(2) by (rule bump_address)
    have nonnull: "(of_nat a :: 32 word) \<noteq> 0"
      using p a(1) by auto
    have apart: "list_all (\<lambda>(q, sz). a + unat n \<le> unat q \<or> unat q + unat sz \<le> a) rs"
      using rs by (auto simp add: list_all_iff)
    have grown: "list_all (\<lambda>(q, sz). unat q + unat sz \<le> a + unat n) rs"
      using rs by (auto simp add: list_all_iff)
    from True a have space: "a + unat n \<le> 2 ^ 32"
      by (simp add: bump_limit_def)
    show ?thesis
      using True a p nonnull apart grown space h
      by (simp add: bump_malloc_def bump_manager_def region_usable_def)
  qed
qed


text \<open>
  Claim C7. \<open>vw_alloc\<close> returns the null address exactly when the host memory manager
  cannot satisfy the request, and passes the allocator's result on without a retry;
  otherwise it returns a usable, non-null address.

  For every memory manager and every \<open>malloc\<close> that keeps the contract towards it, in
  every heap of the manager: \<open>vw_alloc\<close> returns the address and the heap of one call of
  \<open>malloc\<close>; the address is null exactly when the manager cannot satisfy the request; if
  it can, the \<open>numBytes\<close> bytes at the address are usable and in use afterwards; if it
  cannot, no region has been taken into use.
\<close>

theorem vw_alloc_null_iff_unsatisfiable:
  assumes "malloc_contract mgr malloc" and "heap_ok mgr heap"
  shows "\<exists>p heap'. vw_alloc malloc numBytes heap = (p, heap') \<and> malloc numBytes heap = (p, heap') \<and>
    heap_ok mgr heap' \<and>
    (p = 0 \<longleftrightarrow> \<not> can_satisfy mgr heap numBytes) \<and>
    (if can_satisfy mgr heap numBytes
     then region_usable (live mgr heap) p numBytes \<and> live mgr heap' = (p, numBytes) # live mgr heap
     else live mgr heap' = live mgr heap)"
proof -
  obtain p heap' where call: "malloc numBytes heap = (p, heap')"
    by (cases "malloc numBytes heap") blast
  note kept = malloc_contractD [OF assms call]
  have passed: "vw_alloc malloc numBytes heap = (p, heap')"
    using call by (simp add: vw_alloc_def)
  show ?thesis
  proof (cases "can_satisfy mgr heap numBytes")
    case True
    with kept(2) have "region_usable (live mgr heap) p numBytes"
      and "live mgr heap' = (p, numBytes) # live mgr heap"
      by simp_all
    moreover from this(1) have "p \<noteq> 0"
      by (simp add: region_usable_def)
    ultimately show ?thesis
      using True passed call kept(1) by simp
  next
    case False
    with kept(3) have "p = 0" and "live mgr heap' = live mgr heap"
      by simp_all
    then show ?thesis
      using False passed call kept(1) by simp
  qed
qed

theorem vw_alloc_null_iff_unsatisfiable_witness:
  "malloc_contract bump_manager bump_malloc \<and> heap_ok bump_manager (1, [])
   \<and> can_satisfy bump_manager (1, []) 16
   \<and> vw_alloc bump_malloc 16 (1, []) = (1, (17, [(1, 16)]))
   \<and> region_usable (live bump_manager (1, [])) 1 16
   \<and> \<not> can_satisfy bump_manager (1, []) 70000
   \<and> vw_alloc bump_malloc 70000 (1, []) = (0, (1, []))
   \<and> (\<exists>p heap'. vw_alloc bump_malloc 16 (1, []) = (p, heap') \<and> bump_malloc 16 (1, []) = (p, heap') \<and>
        heap_ok bump_manager heap' \<and>
        (p = 0 \<longleftrightarrow> \<not> can_satisfy bump_manager (1, []) 16) \<and>
        (if can_satisfy bump_manager (1, []) 16
         then region_usable (live bump_manager (1, [])) p 16 \<and>
              live bump_manager heap' = (p, 16) # live bump_manager (1, [])
         else live bump_manager heap' = live bump_manager (1, [])))
   \<and> (\<exists>p heap'. vw_alloc bump_malloc 70000 (1, []) = (p, heap') \<and>
        bump_malloc 70000 (1, []) = (p, heap') \<and>
        heap_ok bump_manager heap' \<and>
        (p = 0 \<longleftrightarrow> \<not> can_satisfy bump_manager (1, []) 70000) \<and>
        (if can_satisfy bump_manager (1, []) 70000
         then region_usable (live bump_manager (1, [])) p 70000 \<and>
              live bump_manager heap' = (p, 70000) # live bump_manager (1, [])
         else live bump_manager heap' = live bump_manager (1, [])))"
proof -
  have ok: "heap_ok bump_manager (1, [])"
    by (simp add: bump_manager_def bump_limit_def)
  have fits: "can_satisfy bump_manager (1, []) 16"
    and too_big: "\<not> can_satisfy bump_manager (1, []) 70000"
    by (simp_all add: bump_manager_def bump_limit_def)
  have given: "vw_alloc bump_malloc 16 (1, []) = (1, (17, [(1, 16)]))"
    and refused: "vw_alloc bump_malloc 70000 (1, []) = (0, (1, []))"
    by (simp_all add: vw_alloc_def bump_malloc_def bump_limit_def)
  have usable: "region_usable (live bump_manager (1, [])) 1 16"
    by (simp add: region_usable_def bump_manager_def)
  from bump_malloc_contract ok fits given usable too_big refused
    vw_alloc_null_iff_unsatisfiable [OF bump_malloc_contract ok, of 16]
    vw_alloc_null_iff_unsatisfiable [OF bump_malloc_contract ok, of 70000]
  show ?thesis by (intro conjI)
qed

end
